theory Spec2Isabelle
  imports Complex_Main
begin

section \<open>The account table (user.model.js)\<close>

text \<open>
  One row of the \<open>users\<close> table, with the columns of \<open>User.init\<close>. Timestamps
  (\<open>DataTypes.DATE\<close>) are milliseconds since the epoch, the value of \<open>Date.getTime()\<close>;
  a nullable column is an \<open>option\<close> (\<open>None\<close> is SQL NULL). \<open>failedLoginAttempts\<close>
  has a default but no \<open>allowNull: false\<close>, and the service itself reads it with
  \<open>|| 0\<close>, so it is nullable here too; \<open>isVerified\<close> is only ever written as
  \<open>true\<close> or \<open>false\<close> and is a \<open>bool\<close>. \<open>User.init\<close> declares no
  \<open>walletAddress\<close> attribute, so no row holds one.
\<close>

record user =
  user_id :: nat
  username :: string
  email :: string
  password :: string
  isVerified :: bool
  verificationToken :: "string option"
  failedLoginAttempts :: "int option"
  lockUntil :: "int option"
  resetPasswordToken :: "string option"
  resetPasswordExpires :: "int option"

text \<open>
  The object literal handed to \<open>instance.update\<close>: a key that is absent (or
  \<open>undefined\<close>, which Sequelize drops) is \<open>None\<close>; a key that is present carries
  the value to store, \<open>Some None\<close> being an explicit \<open>null\<close>. The primary key is
  not part of it: Sequelize ignores an \<open>id\<close> given to an existing instance. The
  callers do pass a \<open>walletAddress\<close> key, so the input has one; it names no declared
  attribute, and \<open>assign\<close> below drops it as the instance's setter does.
\<close>

record updateData =
  set_username :: "string option"
  set_email :: "string option"
  set_password :: "string option"
  set_walletAddress :: "string option"
  set_isVerified :: "bool option"
  set_verificationToken :: "string option option"
  set_failedLoginAttempts :: "int option option"
  set_lockUntil :: "int option option"
  set_resetPasswordToken :: "string option option"
  set_resetPasswordExpires :: "int option option"

definition no_fields :: updateData where
  "no_fields = \<lparr> set_username = None, set_email = None, set_password = None,
     set_walletAddress = None, set_isVerified = None, set_verificationToken = None,
     set_failedLoginAttempts = None, set_lockUntil = None,
     set_resetPasswordToken = None, set_resetPasswordExpires = None \<rparr>"

definition or_keep :: "'a option \<Rightarrow> 'a \<Rightarrow> 'a" where
  "or_keep v old = (case v of None \<Rightarrow> old | Some new \<Rightarrow> new)"

definition assign :: "updateData \<Rightarrow> user \<Rightarrow> user" where
  "assign d u = u \<lparr>
     username := or_keep (set_username d) (username u),
     email := or_keep (set_email d) (email u),
     password := or_keep (set_password d) (password u),
     isVerified := or_keep (set_isVerified d) (isVerified u),
     verificationToken := or_keep (set_verificationToken d) (verificationToken u),
     failedLoginAttempts := or_keep (set_failedLoginAttempts d) (failedLoginAttempts u),
     lockUntil := or_keep (set_lockUntil d) (lockUntil u),
     resetPasswordToken := or_keep (set_resetPasswordToken d) (resetPasswordToken u),
     resetPasswordExpires := or_keep (set_resetPasswordExpires d) (resetPasswordExpires u) \<rparr>"

text \<open>
  Failures of the service. The source throws \<open>Error\<close> objects told apart by their
  message only; each constructor stands for one message:
  \<^item> \<open>Conflict\<close>: "User with this email or username already exists" (register);
  \<^item> \<open>InvalidCredentials\<close>: "Invalid credentials" (login);
  \<^item> \<open>AccountLocked n\<close>: "Account is locked. Try again in n minutes" (login);
  \<^item> \<open>InvalidToken\<close>: "Invalid verification token" (verifyEmail);
  \<^item> \<open>InvalidOrExpiredToken\<close>: "Invalid or expired reset token" (resetPassword);
  \<^item> \<open>AccountNotFound\<close>: "User not found" (updateProfile);
  \<^item> \<open>ProfileConflict\<close>: "Username or email already exists" (updateProfile);
  \<^item> \<open>UniqueConstraint\<close>: the store rejecting a write that breaks a \<open>unique: true\<close>
    column.
  Every operation wraps what it throws with a prefix of its own
  ("Authentication failed: ..."), which is fixed per operation and left out.
\<close>

datatype auth_error =
    Conflict
  | InvalidCredentials
  | AccountLocked int
  | InvalidToken
  | InvalidOrExpiredToken
  | AccountNotFound
  | ProfileConflict
  | UniqueConstraint

text \<open>
  The table is the list of its rows. \<open>findOne\<close> returns the first row that satisfies
  the \<open>where\<close> clause, \<open>findByPk\<close> the row with the given primary key.
\<close>

definition User_findOne :: "(user \<Rightarrow> bool) \<Rightarrow> user list \<Rightarrow> user option" where
  "User_findOne wh users = find wh users"

definition User_findByPk :: "nat \<Rightarrow> user list \<Rightarrow> user option" where
  "User_findByPk i users = find (\<lambda>r. user_id r = i) users"

text \<open>
  \<open>username\<close> and \<open>email\<close> are \<open>unique: true\<close>: a write that would give the row
  the username or email of a different row is rejected by the store.
\<close>

definition breaks_unique :: "user list \<Rightarrow> nat \<Rightarrow> updateData \<Rightarrow> bool" where
  "breaks_unique users i d =
     (\<exists>r \<in> set users. user_id r \<noteq> i \<and>
        (set_username d = Some (username r) \<or> set_email d = Some (email r)))"

text \<open>\<open>UPDATE users SET ... WHERE id = i\<close>.\<close>

definition rewrite_rows :: "nat \<Rightarrow> (user \<Rightarrow> user) \<Rightarrow> user list \<Rightarrow> user list" where
  "rewrite_rows i f users = map (\<lambda>r. if user_id r = i then f r else r) users"

text \<open>
  \<open>user.update(values)\<close>: assigns the values to the instance and writes them to the
  row with the instance's primary key. Returns the new table and the updated instance.
\<close>

definition instance_update ::
  "user list \<Rightarrow> user \<Rightarrow> updateData \<Rightarrow> auth_error + (user list \<times> user)" where
  "instance_update users u d =
     (if breaks_unique users (user_id u) d then Inl UniqueConstraint
      else Inr (rewrite_rows (user_id u) (assign d) users, assign d u))"

section \<open>Collaborators\<close>

text \<open>
  bcrypt, jsonwebtoken and the signing secret of \<open>config\<close> are outside the service; the
  operations take them as a record of functions. \<open>bcrypt_hash\<close> has the plaintext and
  the number of salt rounds, \<open>jwt_sign\<close> the payload, the secret and \<open>expiresIn\<close>.
  The output of \<open>crypto.randomBytes(32).toString('hex')\<close> is an argument of the
  operation that draws it.
\<close>

datatype jwt_payload =
    AccessClaims nat string string "string option"
  | RefreshClaims nat

record env =
  bcrypt_hash :: "string \<Rightarrow> nat \<Rightarrow> string"
  bcrypt_compare :: "string \<Rightarrow> string \<Rightarrow> bool"
  jwt_sign :: "jwt_payload \<Rightarrow> string \<Rightarrow> string \<Rightarrow> string"
  jwtSecret :: string

definition saltRounds :: nat where
  "saltRounds = 12"

definition jwtExpiry :: string where
  "jwtExpiry = ''24h''"

definition refreshTokenExpiry :: string where
  "refreshTokenExpiry = ''7d''"

text \<open>
  The property read \<open>user.walletAddress\<close>. \<open>User.init\<close> declares no such attribute, so
  \<open>User.create\<close> and \<open>user.update\<close> drop the key and the instance has no such
  property: the read gives \<open>undefined\<close> (\<open>None\<close>) on every instance.
\<close>

definition walletAddress :: "user \<Rightarrow> string option" where
  "walletAddress u = None"

record tokens =
  accessToken :: string
  refreshToken :: string
  expiresIn :: string

definition generateTokens :: "env \<Rightarrow> user \<Rightarrow> tokens" where
  "generateTokens e u =
     \<lparr> accessToken = jwt_sign e
         (AccessClaims (user_id u) (username u) (email u) (walletAddress u))
         (jwtSecret e) jwtExpiry,
       refreshToken = jwt_sign e (RefreshClaims (user_id u)) (jwtSecret e) refreshTokenExpiry,
       expiresIn = jwtExpiry \<rparr>"

text \<open>The \<open>user: {id, username, email, walletAddress, isVerified}\<close> part of a response.\<close>

record public_user =
  pub_id :: nat
  pub_username :: string
  pub_email :: string
  pub_walletAddress :: "string option"
  pub_isVerified :: bool

definition public_fields :: "user \<Rightarrow> public_user" where
  "public_fields u =
     \<lparr> pub_id = user_id u, pub_username = username u, pub_email = email u,
       pub_walletAddress = walletAddress u, pub_isVerified = isVerified u \<rparr>"

section \<open>Login and the lockout state machine\<close>

record credentials =
  cred_email :: string
  cred_password :: string

text \<open>
  The guard \<open>user.lockUntil && user.lockUntil > new Date()\<close>: a \<open>Date\<close> object is
  always truthy, so the first conjunct only excludes \<open>null\<close>.
\<close>

definition active_lock :: "user \<Rightarrow> int \<Rightarrow> int option" where
  "active_lock u now =
     (case lockUntil u of None \<Rightarrow> None | Some l \<Rightarrow> if l > now then Some l else None)"

definition is_locked :: "user \<Rightarrow> int \<Rightarrow> bool" where
  "is_locked u now = (active_lock u now \<noteq> None)"

text \<open>
  \<open>Math.ceil((user.lockUntil.getTime() - Date.now()) / 1000 / 60)\<close>. The source
  divides in double precision; the quotients are taken exactly here. The two agree on
  differences of the size this service produces (a lock lasts 15 minutes): a multiple of
  60000 divides without rounding, and any other difference is at least 1/60000 away
  from a whole number of minutes, far more than the rounding error.
\<close>

definition lockTimeRemaining :: "int \<Rightarrow> int \<Rightarrow> int" where
  "lockTimeRemaining l t = \<lceil>real_of_int (l - t) / 1000 / 60\<rceil>"

definition maxAttempts :: int where
  "maxAttempts = 5"

definition lockTime :: int where
  "lockTime = 15 * 60 * 1000"

text \<open>
  \<open>handleFailedLogin(user)\<close>; \<open>t\<close> is the value of its \<open>Date.now()\<close>.
  \<open>or_zero\<close> is \<open>user.failedLoginAttempts || 0\<close>, which reads \<open>null\<close> as 0.
\<close>

definition or_zero :: "int option \<Rightarrow> int" where
  "or_zero v = (case v of None \<Rightarrow> 0 | Some n \<Rightarrow> n)"

definition handleFailedLogin :: "int \<Rightarrow> user list \<Rightarrow> user \<Rightarrow> auth_error + (user list \<times> user)" where
  "handleFailedLogin t users u =
     (let failedAttempts = or_zero (failedLoginAttempts u) + 1;
          lockUntil' = (if failedAttempts \<ge> maxAttempts then Some (t + lockTime) else None)
      in instance_update users u
           (no_fields \<lparr> set_failedLoginAttempts := Some (Some failedAttempts),
                        set_lockUntil := Some lockUntil' \<rparr>))"

text \<open>
  \<open>login(credentials)\<close>. The call reads the clock twice: \<open>now\<close> is the
  \<open>new Date()\<close> of the lock check, \<open>later\<close> the \<open>Date.now()\<close> read after it
  (in the message of a locked account, or in \<open>handleFailedLogin\<close>). The result is the
  table after the call together with what the caller gets.
\<close>

definition login ::
  "env \<Rightarrow> int \<Rightarrow> int \<Rightarrow> user list \<Rightarrow> credentials
     \<Rightarrow> user list \<times> (auth_error + public_user \<times> tokens)" where
  "login e now later users c =
     (case User_findOne (\<lambda>r. email r = cred_email c) users of
        None \<Rightarrow> (users, Inl InvalidCredentials)
      | Some u \<Rightarrow>
          (case active_lock u now of
             Some l \<Rightarrow> (users, Inl (AccountLocked (lockTimeRemaining l later)))
           | None \<Rightarrow>
               if \<not> bcrypt_compare e (cred_password c) (password u) then
                 (case handleFailedLogin later users u of
                    Inl err \<Rightarrow> (users, Inl err)
                  | Inr (users', u') \<Rightarrow> (users', Inl InvalidCredentials))
               else
                 (case instance_update users u
                         (no_fields \<lparr> set_failedLoginAttempts := Some (Some 0),
                                      set_lockUntil := Some None \<rparr>) of
                    Inl err \<Rightarrow> (users, Inl err)
                  | Inr (users', u') \<Rightarrow>
                      (users', Inr (public_fields u', generateTokens e u')))))"

section \<open>Registration\<close>

record userData =
  reg_username :: string
  reg_email :: string
  reg_password :: string
  reg_walletAddress :: string

text \<open>
  \<open>User.create\<close>: the store assigns the next primary key (auto-increment) and the
  column defaults, and rejects a row whose username or email is already taken. The
  \<open>walletAddress\<close> handed to it (\<open>wa\<close>) is no declared attribute and is not stored.
\<close>

definition next_id :: "user list \<Rightarrow> nat" where
  "next_id users = Suc (fold max (map user_id users) 0)"

definition User_create ::
  "user list \<Rightarrow> string \<Rightarrow> string \<Rightarrow> string \<Rightarrow> string \<Rightarrow> string option \<Rightarrow> bool
     \<Rightarrow> auth_error + (user list \<times> user)" where
  "User_create users un em pw wa vt ver =
     (if \<exists>r \<in> set users. username r = un \<or> email r = em then Inl UniqueConstraint
      else
        let u = \<lparr> user_id = next_id users, username = un, email = em, password = pw,
                    isVerified = ver, verificationToken = vt,
                    failedLoginAttempts = Some 0, lockUntil = None,
                    resetPasswordToken = None, resetPasswordExpires = None \<rparr>
        in Inr (users @ [u], u))"

record registered =
  registered_user :: public_user
  registered_tokens :: tokens
  registered_verificationToken :: string

text \<open>\<open>register(userData)\<close>; \<open>rnd\<close> is the output of \<open>generateVerificationToken()\<close>.\<close>

definition register ::
  "env \<Rightarrow> string \<Rightarrow> user list \<Rightarrow> userData \<Rightarrow> user list \<times> (auth_error + registered)" where
  "register e rnd users d =
     (case User_findOne (\<lambda>r. email r = reg_email d \<or> username r = reg_username d) users of
        Some existingUser \<Rightarrow> (users, Inl Conflict)
      | None \<Rightarrow>
          let hashedPassword = bcrypt_hash e (reg_password d) saltRounds;
              verificationToken = rnd
          in (case User_create users (reg_username d) (reg_email d) hashedPassword
                     (reg_walletAddress d) (Some verificationToken) False of
                Inl err \<Rightarrow> (users, Inl err)
              | Inr (users', u) \<Rightarrow>
                  (users', Inr \<lparr> registered_user = public_fields u,
                                   registered_tokens = generateTokens e u,
                                   registered_verificationToken = verificationToken \<rparr>)))"

section \<open>Email verification\<close>

text \<open>\<open>verifyEmail(token)\<close>; a success carries its message.\<close>

definition verifyEmail :: "user list \<Rightarrow> string \<Rightarrow> user list \<times> (auth_error + string)" where
  "verifyEmail users token =
     (case User_findOne (\<lambda>r. verificationToken r = Some token) users of
        None \<Rightarrow> (users, Inl InvalidToken)
      | Some u \<Rightarrow>
          if isVerified u then (users, Inr ''Email already verified'')
          else
            (case instance_update users u
                    (no_fields \<lparr> set_isVerified := Some True,
                                 set_verificationToken := Some None \<rparr>) of
               Inl err \<Rightarrow> (users, Inl err)
             | Inr (users', u') \<Rightarrow> (users', Inr ''Email verified successfully'')))"

section \<open>Password reset\<close>

record reset_requested =
  reset_message :: string
  reset_resetToken :: "string option"

text \<open>
  \<open>requestPasswordReset(email)\<close>; \<open>now\<close> is its \<open>Date.now()\<close>, \<open>rnd\<close> the
  output of \<open>generateResetToken()\<close>. The response has a \<open>resetToken\<close> key only when
  the account exists.
\<close>

definition requestPasswordReset ::
  "string \<Rightarrow> int \<Rightarrow> user list \<Rightarrow> string \<Rightarrow> user list \<times> (auth_error + reset_requested)" where
  "requestPasswordReset rnd now users em =
     (case User_findOne (\<lambda>r. email r = em) users of
        None \<Rightarrow>
          (users, Inr \<lparr> reset_message =
              ''If an account with this email exists, a password reset link has been sent'',
            reset_resetToken = None \<rparr>)
      | Some u \<Rightarrow>
          let resetToken = rnd;
              resetExpires = now + 3600000
          in (case instance_update users u
                     (no_fields \<lparr> set_resetPasswordToken := Some (Some resetToken),
                                  set_resetPasswordExpires := Some (Some resetExpires) \<rparr>) of
                Inl err \<Rightarrow> (users, Inl err)
              | Inr (users', u') \<Rightarrow>
                  (users', Inr \<lparr> reset_message =
                      ''If an account with this email exists, a password reset link has been sent'',
                    reset_resetToken = Some resetToken \<rparr>)))"

text \<open>
  The \<open>where\<close> clause of \<open>resetPassword\<close>: the token column equals the input and
  the expiry is greater than \<open>new Date()\<close>; a NULL expiry compares as no match.
\<close>

definition reset_match :: "string \<Rightarrow> int \<Rightarrow> user \<Rightarrow> bool" where
  "reset_match token now r =
     (resetPasswordToken r = Some token \<and>
      (case resetPasswordExpires r of None \<Rightarrow> False | Some x \<Rightarrow> x > now))"

definition resetPassword ::
  "env \<Rightarrow> int \<Rightarrow> user list \<Rightarrow> string \<Rightarrow> string \<Rightarrow> user list \<times> (auth_error + string)" where
  "resetPassword e now users token newPassword =
     (case User_findOne (reset_match token now) users of
        None \<Rightarrow> (users, Inl InvalidOrExpiredToken)
      | Some u \<Rightarrow>
          let hashedPassword = bcrypt_hash e newPassword saltRounds
          in (case instance_update users u
                     (no_fields \<lparr> set_password := Some hashedPassword,
                                  set_resetPasswordToken := Some None,
                                  set_resetPasswordExpires := Some None,
                                  set_failedLoginAttempts := Some (Some 0),
                                  set_lockUntil := Some None \<rparr>) of
                Inl err \<Rightarrow> (users, Inl err)
              | Inr (users', u') \<Rightarrow> (users', Inr ''Password reset successfully'')))"

section \<open>Profile update\<close>

text \<open>
  JavaScript truthiness of an optional string: \<open>undefined\<close> and the empty string are
  falsy.
\<close>

definition truthy :: "string option \<Rightarrow> bool" where
  "truthy v = (case v of None \<Rightarrow> False | Some s \<Rightarrow> s \<noteq> [])"

text \<open>
  The \<open>where\<close> clause of the collision check: an \<open>Op.or\<close> over the conditions
  that are left after the empty ones are filtered out, and \<open>Op.not: {id: userId}\<close>.
\<close>

definition collides :: "nat \<Rightarrow> updateData \<Rightarrow> user \<Rightarrow> bool" where
  "collides userId d r =
     (((truthy (set_username d) \<and> Some (username r) = set_username d) \<or>
       (truthy (set_email d) \<and> Some (email r) = set_email d)) \<and>
      user_id r \<noteq> userId)"

definition updateProfile ::
  "user list \<Rightarrow> nat \<Rightarrow> updateData \<Rightarrow> user list \<times> (auth_error + public_user)" where
  "updateProfile users userId d =
     (case User_findByPk userId users of
        None \<Rightarrow> (users, Inl AccountNotFound)
      | Some u \<Rightarrow>
          if (truthy (set_username d) \<or> truthy (set_email d)) \<and>
             User_findOne (collides userId d) users \<noteq> None
          then (users, Inl ProfileConflict)
          else
            (case instance_update users u d of
               Inl err \<Rightarrow> (users, Inl err)
             | Inr (users', updatedUser) \<Rightarrow> (users', Inr (public_fields updatedUser))))"

section \<open>Scenarios\<close>

text \<open>
  Consecutive logins, each with its own clock readings, the table threaded from one call
  to the next; the result is the final table and the outcomes in order.
\<close>

fun login_all ::
  "env \<Rightarrow> user list \<Rightarrow> (int \<times> int \<times> credentials) list
     \<Rightarrow> user list \<times> (auth_error + public_user \<times> tokens) list" where
  "login_all e users [] = (users, [])"
| "login_all e users ((now, later, c) # rest) =
     (case login e now later users c of
        (users', r) \<Rightarrow>
          (case login_all e users' rest of (users'', rs) \<Rightarrow> (users'', r # rs)))"

section \<open>Sample data\<close>

text \<open>
  A stand-in for the collaborators (the hash of a password is the password behind a
  \<open>#\<close>) and two accounts, used to evaluate the operations on concrete input.
\<close>

definition sample_env :: env where
  "sample_env =
     \<lparr> bcrypt_hash = (\<lambda>p n. CHR ''#'' # p),
       bcrypt_compare = (\<lambda>p h. h = CHR ''#'' # p),
       jwt_sign = (\<lambda>p s x. (case p of AccessClaims i un em wa \<Rightarrow> ''access-'' @ un
                                      | RefreshClaims i \<Rightarrow> ''refresh'') @ ''-'' @ x),
       jwtSecret = ''your_jwt_secret'' \<rparr>"

definition alice :: user where
  "alice =
     \<lparr> user_id = 1, username = ''alice'', email = ''a@x.com'', password = ''#Abcd1234'',
       isVerified = False, verificationToken = Some ''5f2c'',
       failedLoginAttempts = Some 0, lockUntil = None,
       resetPasswordToken = None, resetPasswordExpires = None \<rparr>"

definition bob :: user where
  "bob =
     \<lparr> user_id = 2, username = ''bob'', email = ''b@x.com'', password = ''#hunter22'',
       isVerified = True, verificationToken = None,
       failedLoginAttempts = Some 5, lockUntil = Some 900000,
       resetPasswordToken = Some ''77aa'', resetPasswordExpires = Some 3600000 \<rparr>"

definition wrong_pw :: "string \<Rightarrow> credentials" where
  "wrong_pw em = \<lparr> cred_email = em, cred_password = ''guess'' \<rparr>"

definition carol_data :: userData where
  "carol_data =
     \<lparr> reg_username = ''carol'', reg_email = ''c@x.com'', reg_password = ''Passw0rd'',
       reg_walletAddress = ''0x3333333333333333333333333333333333333333'' \<rparr>"

section \<open>Lookups and row updates\<close>

lemma find_rows_preserved:
  assumes "\<And>r. P (g r) = P r"
  shows "find P (map g xs) = map_option g (find P xs)"
  by (induction xs) (auto simp: assms)

lemma findOne_member:
  "User_findOne wh users = Some u \<Longrightarrow> u \<in> set users \<and> wh u"
  unfolding User_findOne_def by (auto simp: find_Some_iff)

lemma findByPk_distinct:
  "distinct (map user_id users) \<Longrightarrow> u \<in> set users \<Longrightarrow> User_findByPk (user_id u) users = Some u"
  unfolding User_findByPk_def
  by (induction users) (auto simp: rev_image_eqI)

lemma findByPk_rewrite_rows:
  assumes "\<And>r. user_id (f r) = user_id r"
  shows "User_findByPk j (rewrite_rows i f users) =
           (if j = i then map_option f (User_findByPk j users) else User_findByPk j users)"
  unfolding User_findByPk_def rewrite_rows_def
  by (induction users) (auto simp: assms)

lemma rewrite_rows_same:
  assumes "distinct (map user_id users)" and "u \<in> set users" and "f u = u"
  shows "rewrite_rows (user_id u) f users = users"
proof -
  have "inj_on user_id (set users)"
    using assms(1) by (simp add: distinct_map)
  then have "\<And>r. r \<in> set users \<Longrightarrow> user_id r = user_id u \<Longrightarrow> r = u"
    using assms(2) by (auto dest: inj_onD)
  then show ?thesis
    unfolding rewrite_rows_def using assms(3) by (intro map_idI) auto
qed

lemma findOne_exists:
  "(User_findOne wh users \<noteq> None) = (\<exists>r \<in> set users. wh r)"
  by (auto simp: User_findOne_def find_None_iff)

lemma update_plain:
  "set_username d = None \<Longrightarrow> set_email d = None \<Longrightarrow>
   instance_update users u d = Inr (rewrite_rows (user_id u) (assign d) users, assign d u)"
  by (simp add: instance_update_def breaks_unique_def)

lemma findOne_rewrite_rows:
  assumes "User_findOne wh users = Some u" and "\<And>r. wh (f r) = wh r"
  shows "User_findOne wh (rewrite_rows (user_id u) f users) = Some (f u)"
proof -
  have "\<And>r. wh (if user_id r = user_id u then f r else r) = wh r"
    by (simp add: assms(2))
  then have "find wh (map (\<lambda>r. if user_id r = user_id u then f r else r) users)
      = map_option (\<lambda>r. if user_id r = user_id u then f r else r) (find wh users)"
    by (rule find_rows_preserved)
  with assms(1) show ?thesis
    by (simp add: User_findOne_def rewrite_rows_def)
qed

section \<open>Properties of login\<close>

lemma login_wrong_password:
  assumes "User_findOne (\<lambda>r. email r = cred_email c) users = Some u"
    and "active_lock u now = None"
    and "\<not> bcrypt_compare e (cred_password c) (password u)"
  shows "login e now later users c =
           (rewrite_rows (user_id u)
              (\<lambda>r. r \<lparr> failedLoginAttempts := Some (or_zero (failedLoginAttempts u) + 1),
                        lockUntil := (if or_zero (failedLoginAttempts u) + 1 \<ge> 5
                                      then Some (later + 900000) else None) \<rparr>) users,
            Inl InvalidCredentials)"
  using assms
  by (simp add: login_def handleFailedLogin_def update_plain no_fields_def assign_def [abs_def]
      or_keep_def maxAttempts_def lockTime_def Let_def)

lemma login_wrong_password_account:
  assumes "User_findOne (\<lambda>r. email r = cred_email c) users = Some u"
    and "active_lock u now = None"
    and "\<not> bcrypt_compare e (cred_password c) (password u)"
  shows "snd (login e now later users c) = Inl InvalidCredentials"
    and "User_findOne (\<lambda>r. email r = cred_email c) (fst (login e now later users c)) =
           Some (u \<lparr> failedLoginAttempts := Some (or_zero (failedLoginAttempts u) + 1),
                      lockUntil := (if or_zero (failedLoginAttempts u) + 1 \<ge> 5
                                    then Some (later + 900000) else None) \<rparr>)"
proof -
  note step = login_wrong_password[OF assms, of later]
  show "snd (login e now later users c) = Inl InvalidCredentials"
    by (simp add: step)
  show "User_findOne (\<lambda>r. email r = cred_email c) (fst (login e now later users c)) =
           Some (u \<lparr> failedLoginAttempts := Some (or_zero (failedLoginAttempts u) + 1),
                      lockUntil := (if or_zero (failedLoginAttempts u) + 1 \<ge> 5
                                    then Some (later + 900000) else None) \<rparr>)"
    unfolding step fst_conv
    by (rule findOne_rewrite_rows[OF assms(1)]) simp
qed

lemma login_right_password:
  assumes "User_findOne (\<lambda>r. email r = cred_email c) users = Some u"
    and "active_lock u now = None"
    and "bcrypt_compare e (cred_password c) (password u)"
  shows "login e now later users c =
           (rewrite_rows (user_id u) (\<lambda>r. r \<lparr> failedLoginAttempts := Some 0, lockUntil := None \<rparr>) users,
            Inr (public_fields u, generateTokens e u))"
  using assms
  by (simp add: login_def update_plain no_fields_def assign_def [abs_def] or_keep_def
      public_fields_def generateTokens_def walletAddress_def)

lemma login_all_wrong:
  assumes "User_findOne (\<lambda>r. email r = em) users = Some u"
    and "failedLoginAttempts u = Some k"
    and "lockUntil u = None"
    and "\<forall>(now, later, c) \<in> set as.
           cred_email c = em \<and> \<not> bcrypt_compare e (cred_password c) (password u)"
    and "k + int (length as) \<le> 5"
  shows "snd (login_all e users as) = replicate (length as) (Inl InvalidCredentials) \<and>
         User_findOne (\<lambda>r. email r = em) (fst (login_all e users as)) =
           Some (u \<lparr> failedLoginAttempts := Some (k + int (length as)),
                      lockUntil := (if as \<noteq> [] \<and> k + int (length as) = 5
                                    then Some (fst (snd (last as)) + 900000) else None) \<rparr>)"
  using assms
proof (induction as arbitrary: users u k)
  case Nil
  then show ?case by simp
next
  case (Cons a as)
  obtain now later c where a: "a = (now, later, c)"
    by (cases a) auto
  let ?u1 = "u \<lparr> failedLoginAttempts := Some (k + 1),
                   lockUntil := (if k + 1 \<ge> 5 then Some (later + 900000) else None) \<rparr>"
  let ?users1 = "fst (login e now later users c)"
  from Cons.prems a have em: "cred_email c = em"
    and wrong: "\<not> bcrypt_compare e (cred_password c) (password u)"
    by auto
  have unl: "active_lock u now = None"
    using Cons.prems(3) by (simp add: active_lock_def)
  have found: "User_findOne (\<lambda>r. email r = cred_email c) users = Some u"
    using Cons.prems(1) em by simp
  have r1: "snd (login e now later users c) = Inl InvalidCredentials"
    using login_wrong_password_account(1)[OF found unl wrong] .
  have f1: "User_findOne (\<lambda>r. email r = em) ?users1 = Some ?u1"
    using login_wrong_password_account(2)[OF found unl wrong, of later] em Cons.prems(2)
    by (simp add: or_zero_def)
  show ?case
  proof (cases "as = []")
    case True
    with r1 f1 a Cons.prems(5) show ?thesis
      by (simp add: split_beta)
  next
    case False
    then have "length as \<ge> 1"
      by (cases as) auto
    with Cons.prems(5) have k4: "k + 1 < 5"
      by simp
    have ih: "snd (login_all e ?users1 as) = replicate (length as) (Inl InvalidCredentials) \<and>
         User_findOne (\<lambda>r. email r = em) (fst (login_all e ?users1 as)) =
           Some (?u1 \<lparr> failedLoginAttempts := Some (k + 1 + int (length as)),
                      lockUntil := (if as \<noteq> [] \<and> k + 1 + int (length as) = 5
                                    then Some (fst (snd (last as)) + 900000) else None) \<rparr>)"
      using Cons.prems(4,5) k4
      by (intro Cons.IH[OF f1]) auto
    with r1 a False show ?thesis
      by (simp add: split_beta add.assoc add.commute)
  qed
qed

text \<open>
  C1. An account is found by the email, has \<open>failedLoginAttempts = 0\<close> and no active
  lock when the first attempt is made. Every attempt of a run of at most five logins
  with a wrong password fails with \<open>InvalidCredentials\<close>, and after \<open>n\<close> of them the
  account has \<open>failedLoginAttempts = n\<close>; its \<open>lockUntil\<close> is null up to the fourth
  (the account is unlocked at any time), and the fifth sets it to the clock reading of
  that attempt plus 15 minutes, which locks the account.
\<close>

theorem five_wrong_passwords:
  assumes found: "User_findOne (\<lambda>r. email r = em) users = Some u"
    and zero: "failedLoginAttempts u = Some 0"
    and unlocked: "\<not> is_locked u now"
    and wrong: "\<forall>(t, t', c) \<in> set ((now, later, c1) # rest).
           cred_email c = em \<and> \<not> bcrypt_compare e (cred_password c) (password u)"
    and upto5: "length rest \<le> 4"
  shows "snd (login_all e users ((now, later, c1) # rest)) =
           replicate (Suc (length rest)) (Inl InvalidCredentials) \<and>
         (\<exists>u'. User_findOne (\<lambda>r. email r = em)
                 (fst (login_all e users ((now, later, c1) # rest))) = Some u' \<and>
            u' = u \<lparr> failedLoginAttempts := Some (1 + int (length rest)),
                       lockUntil := (if length rest = 4
                                     then Some (fst (snd (last rest)) + 15 * 60 * 1000)
                                     else None) \<rparr> \<and>
            (length rest < 4 \<longrightarrow> (\<forall>t. \<not> is_locked u' t)) \<and>
            (length rest = 4 \<longrightarrow> is_locked u' (fst (snd (last rest)))))"
proof -
  let ?u1 = "u \<lparr> failedLoginAttempts := Some 1, lockUntil := None \<rparr>"
  let ?users1 = "fst (login e now later users c1)"
  from wrong have em: "cred_email c1 = em"
    and w1: "\<not> bcrypt_compare e (cred_password c1) (password u)"
    by auto
  have unl: "active_lock u now = None"
    using unlocked by (simp add: is_locked_def)
  have found1: "User_findOne (\<lambda>r. email r = cred_email c1) users = Some u"
    using found em by simp
  have r1: "snd (login e now later users c1) = Inl InvalidCredentials"
    using login_wrong_password_account(1)[OF found1 unl w1] .
  have f1: "User_findOne (\<lambda>r. email r = em) ?users1 = Some ?u1"
    using login_wrong_password_account(2)[OF found1 unl w1, of later] em zero
    by (simp add: or_zero_def)
  have tail: "snd (login_all e ?users1 rest) = replicate (length rest) (Inl InvalidCredentials) \<and>
         User_findOne (\<lambda>r. email r = em) (fst (login_all e ?users1 rest)) =
           Some (?u1 \<lparr> failedLoginAttempts := Some (1 + int (length rest)),
                      lockUntil := (if rest \<noteq> [] \<and> 1 + int (length rest) = 5
                                    then Some (fst (snd (last rest)) + 900000) else None) \<rparr>)"
    using wrong upto5 by (intro login_all_wrong[OF f1]) auto
  have "(rest \<noteq> [] \<and> 1 + int (length rest) = 5) = (length rest = 4)"
    by auto
  with tail r1 show ?thesis
    by (simp add: split_beta is_locked_def active_lock_def)
qed

theorem five_wrong_passwords_witness:
  "snd (login_all sample_env [alice, bob]
          [(0, 1, wrong_pw ''a@x.com''), (10, 11, wrong_pw ''a@x.com''),
           (20, 21, wrong_pw ''a@x.com''), (30, 31, wrong_pw ''a@x.com''),
           (40, 41, wrong_pw ''a@x.com'')]) =
     [Inl InvalidCredentials, Inl InvalidCredentials, Inl InvalidCredentials,
      Inl InvalidCredentials, Inl InvalidCredentials] \<and>
   User_findOne (\<lambda>r. email r = ''a@x.com'')
     (fst (login_all sample_env [alice, bob]
          [(0, 1, wrong_pw ''a@x.com''), (10, 11, wrong_pw ''a@x.com''),
           (20, 21, wrong_pw ''a@x.com''), (30, 31, wrong_pw ''a@x.com''),
           (40, 41, wrong_pw ''a@x.com'')])) =
     Some (alice \<lparr> failedLoginAttempts := Some 5, lockUntil := Some 900041 \<rparr>)"
proof -
  have found: "User_findOne (\<lambda>r. email r = ''a@x.com'') [alice, bob] = Some alice"
    by (simp add: User_findOne_def alice_def)
  have zero: "failedLoginAttempts alice = Some 0"
    by (simp add: alice_def)
  have unlocked: "\<not> is_locked alice 0"
    by (simp add: is_locked_def active_lock_def alice_def)
  have wrong: "\<forall>(t, t', c) \<in> set ((0, 1, wrong_pw ''a@x.com'') #
        [(10, 11, wrong_pw ''a@x.com''), (20, 21, wrong_pw ''a@x.com''),
         (30, 31, wrong_pw ''a@x.com''), (40, 41, wrong_pw ''a@x.com'')]).
      cred_email c = ''a@x.com'' \<and>
      \<not> bcrypt_compare sample_env (cred_password c) (password alice)"
    by (simp add: wrong_pw_def sample_env_def alice_def)
  have upto5: "length [(10::int, 11::int, wrong_pw ''a@x.com''), (20, 21, wrong_pw ''a@x.com''),
         (30, 31, wrong_pw ''a@x.com''), (40, 41, wrong_pw ''a@x.com'')] \<le> 4"
    by simp
  from five_wrong_passwords[OF found zero unlocked wrong upto5] show ?thesis
    by (simp del: login_all.simps)
qed

text \<open>
  C2. A login for an account whose \<open>lockUntil\<close> is non-null and strictly after the
  clock reading of the lock check fails with \<open>AccountLocked\<close>, carrying the ceiling of
  the remaining milliseconds over 60000, whatever the password supplied, and leaves the
  whole table (so the account's \<open>failedLoginAttempts\<close> and \<open>lockUntil\<close>) as it was.
\<close>

theorem login_locked_account:
  assumes "User_findOne (\<lambda>r. email r = cred_email c) users = Some u"
    and "lockUntil u = Some l"
    and "now < l"
  shows "login e now later users c =
           (users, Inl (AccountLocked \<lceil>real_of_int (l - later) / 60000\<rceil>))"
  using assms
  by (simp add: login_def active_lock_def lockTimeRemaining_def)

theorem login_locked_account_witness:
  "login sample_env 0 0 [alice, bob] \<lparr> cred_email = ''b@x.com'', cred_password = ''hunter22'' \<rparr>
     = ([alice, bob], Inl (AccountLocked 15)) \<and>
   bcrypt_compare sample_env ''hunter22'' (password bob) \<and>
   login sample_env 0 1 [alice, bob] (wrong_pw ''b@x.com'')
     = ([alice, bob], Inl (AccountLocked 15))"
proof -
  have found: "User_findOne (\<lambda>r. email r = cred_email \<lparr> cred_email = ''b@x.com'', cred_password = ''hunter22'' \<rparr>)
      [alice, bob] = Some bob"
    by (simp add: User_findOne_def alice_def bob_def)
  have found': "User_findOne (\<lambda>r. email r = cred_email (wrong_pw ''b@x.com''))
      [alice, bob] = Some bob"
    by (simp add: User_findOne_def alice_def bob_def wrong_pw_def)
  have lock: "lockUntil bob = Some 900000"
    by (simp add: bob_def)
  have future: "(0::int) < 900000"
    by simp
  have right: "bcrypt_compare sample_env ''hunter22'' (password bob)"
    by (simp add: sample_env_def bob_def)
  from login_locked_account[OF found lock future, of sample_env 0]
    login_locked_account[OF found' lock future, of sample_env 1] right
  show ?thesis
    by simp
qed

text \<open>
  C3. A login with the correct password for an account that is not locked succeeds. The
  response carries the account's id, username, email and verification flag (and no
  wallet address, as no row holds one) and a token pair signed on this call: an access
  token over the claims id, username, email and an undefined wallet address with
  lifetime 24h, and a
  refresh token over the id with lifetime 7d, both under the configured secret. The
  account is left with \<open>failedLoginAttempts = 0\<close> and \<open>lockUntil\<close> null, whatever they
  were; when both were already clear (and ids are a primary key) the table is unchanged.
\<close>

theorem login_correct_password:
  assumes found: "User_findOne (\<lambda>r. email r = cred_email c) users = Some u"
    and unlocked: "\<not> is_locked u now"
    and right: "bcrypt_compare e (cred_password c) (password u)"
  shows "snd (login e now later users c) =
           Inr (\<lparr> pub_id = user_id u, pub_username = username u, pub_email = email u,
                  pub_walletAddress = None, pub_isVerified = isVerified u \<rparr>,
                \<lparr> accessToken =
                    jwt_sign e (AccessClaims (user_id u) (username u) (email u) None)
                      (jwtSecret e) ''24h'',
                  refreshToken = jwt_sign e (RefreshClaims (user_id u)) (jwtSecret e) ''7d'',
                  expiresIn = ''24h'' \<rparr>) \<and>
         User_findOne (\<lambda>r. email r = cred_email c) (fst (login e now later users c)) =
           Some (u \<lparr> failedLoginAttempts := Some 0, lockUntil := None \<rparr>) \<and>
         (distinct (map user_id users) \<and> failedLoginAttempts u = Some 0 \<and> lockUntil u = None
            \<longrightarrow> fst (login e now later users c) = users)"
proof -
  have unl: "active_lock u now = None"
    using unlocked by (simp add: is_locked_def)
  note step = login_right_password[OF found unl right, of later]
  have "User_findOne (\<lambda>r. email r = cred_email c)
          (rewrite_rows (user_id u) (\<lambda>r. r \<lparr> failedLoginAttempts := Some 0, lockUntil := None \<rparr>) users)
        = Some (u \<lparr> failedLoginAttempts := Some 0, lockUntil := None \<rparr>)"
    by (rule findOne_rewrite_rows[OF found]) simp
  moreover have "rewrite_rows (user_id u) (\<lambda>r. r \<lparr> failedLoginAttempts := Some 0, lockUntil := None \<rparr>) users = users"
    if "distinct (map user_id users)" "failedLoginAttempts u = Some 0" "lockUntil u = None"
  proof (rule rewrite_rows_same[OF that(1)])
    show "u \<in> set users"
      using findOne_member[OF found] by simp
    show "u \<lparr> failedLoginAttempts := Some 0, lockUntil := None \<rparr> = u"
      using that(2,3) by simp
  qed
  ultimately show ?thesis
    by (simp add: step public_fields_def generateTokens_def walletAddress_def jwtExpiry_def
        refreshTokenExpiry_def)
qed

theorem login_correct_password_witness:
  "snd (login sample_env 900000 900001
          [alice, bob \<lparr> failedLoginAttempts := Some 3 \<rparr>]
          \<lparr> cred_email = ''b@x.com'', cred_password = ''hunter22'' \<rparr>) =
     Inr (\<lparr> pub_id = 2, pub_username = ''bob'', pub_email = ''b@x.com'',
            pub_walletAddress = None, pub_isVerified = True \<rparr>,
          \<lparr> accessToken = ''access-bob-24h'', refreshToken = ''refresh-7d'',
            expiresIn = ''24h'' \<rparr>) \<and>
   User_findOne (\<lambda>r. email r = ''b@x.com'')
     (fst (login sample_env 900000 900001
          [alice, bob \<lparr> failedLoginAttempts := Some 3 \<rparr>]
          \<lparr> cred_email = ''b@x.com'', cred_password = ''hunter22'' \<rparr>)) =
     Some (bob \<lparr> failedLoginAttempts := Some 0, lockUntil := None \<rparr>)"
proof -
  let ?b = "bob \<lparr> failedLoginAttempts := Some 3 \<rparr>"
  let ?c = "\<lparr> cred_email = ''b@x.com'', cred_password = ''hunter22'' \<rparr>"
  have found: "User_findOne (\<lambda>r. email r = cred_email ?c) [alice, ?b] = Some ?b"
    by (simp add: User_findOne_def alice_def bob_def)
  have unlocked: "\<not> is_locked ?b 900000"
    by (simp add: is_locked_def active_lock_def bob_def)
  have right: "bcrypt_compare sample_env (cred_password ?c) (password ?b)"
    by (simp add: sample_env_def bob_def)
  have fields: "user_id ?b = 2" "username ?b = ''bob''" "email ?b = ''b@x.com''" "isVerified ?b"
    by (simp_all add: bob_def)
  have signed:
    "jwt_sign sample_env (AccessClaims 2 ''bob'' ''b@x.com'' None) (jwtSecret sample_env) ''24h''
       = ''access-bob-24h''"
    "jwt_sign sample_env (RefreshClaims 2) (jwtSecret sample_env) ''7d'' = ''refresh-7d''"
    by (simp_all add: sample_env_def)
  from login_correct_password[OF found unlocked right, of 900001] show ?thesis
    using fields signed by simp
qed

text \<open>
  C9. A login with a wrong password for an account that is not locked stores the
  incremented \<open>failedLoginAttempts\<close> and sets \<open>lockUntil\<close> to the clock reading plus
  15 minutes exactly when the incremented count is at least 5, and to null otherwise.
  So an account whose count has already reached 5 is locked again by one more failure
  after its lock expired, and a failure below the threshold clears a stale
  \<open>lockUntil\<close>.
\<close>

theorem failed_login_lock_rule:
  assumes found: "User_findOne (\<lambda>r. email r = cred_email c) users = Some u"
    and unlocked: "\<not> is_locked u now"
    and wrong: "\<not> bcrypt_compare e (cred_password c) (password u)"
  shows "snd (login e now later users c) = Inl InvalidCredentials \<and>
         (\<exists>u'. User_findOne (\<lambda>r. email r = cred_email c) (fst (login e now later users c)) = Some u' \<and>
            u' = u \<lparr> failedLoginAttempts := Some (or_zero (failedLoginAttempts u) + 1),
                       lockUntil := (if or_zero (failedLoginAttempts u) + 1 \<ge> 5
                                     then Some (later + 15 * 60 * 1000) else None) \<rparr> \<and>
            (\<forall>n. failedLoginAttempts u = Some n \<and> 5 \<le> n \<longrightarrow>
                 lockUntil u' = Some (later + 15 * 60 * 1000) \<and> is_locked u' later) \<and>
            (or_zero (failedLoginAttempts u) + 1 < 5 \<longrightarrow>
                 lockUntil u' = None \<and> \<not> is_locked u' later))"
proof -
  have unl: "active_lock u now = None"
    using unlocked by (simp add: is_locked_def)
  from login_wrong_password_account[OF found unl wrong, of later] show ?thesis
    by (auto simp: is_locked_def active_lock_def or_zero_def)
qed

theorem failed_login_lock_rule_witness:
  "snd (login sample_env 900000 900001 [alice, bob] (wrong_pw ''b@x.com'')) = Inl InvalidCredentials \<and>
   User_findOne (\<lambda>r. email r = ''b@x.com'')
     (fst (login sample_env 900000 900001 [alice, bob] (wrong_pw ''b@x.com''))) =
     Some (bob \<lparr> failedLoginAttempts := Some 6, lockUntil := Some 1800001 \<rparr>)"
proof -
  have found: "User_findOne (\<lambda>r. email r = cred_email (wrong_pw ''b@x.com'')) [alice, bob] = Some bob"
    by (simp add: User_findOne_def alice_def bob_def wrong_pw_def)
  have unlocked: "\<not> is_locked bob 900000"
    by (simp add: is_locked_def active_lock_def bob_def)
  have wrong: "\<not> bcrypt_compare sample_env (cred_password (wrong_pw ''b@x.com'')) (password bob)"
    by (simp add: sample_env_def bob_def wrong_pw_def)
  from failed_login_lock_rule[OF found unlocked wrong, of 900001] show ?thesis
    by (simp add: wrong_pw_def or_zero_def bob_def)
qed

text \<open>
  C6, amended. When the account found by the email is not locked, a login with a wrong
  password for it and a login with an email that matches no account give the caller the
  same \<open>InvalidCredentials\<close> failure.
\<close>

theorem login_unknown_email_like_wrong_password:
  assumes unknown: "User_findOne (\<lambda>r. email r = cred_email c1) users = None"
    and found: "User_findOne (\<lambda>r. email r = cred_email c2) users = Some u"
    and unlocked: "\<not> is_locked u now2"
    and wrong: "\<not> bcrypt_compare e (cred_password c2) (password u)"
  shows "snd (login e now1 later1 users c1) = Inl InvalidCredentials \<and>
         snd (login e now2 later2 users c2) = Inl InvalidCredentials"
proof -
  have unl: "active_lock u now2 = None"
    using unlocked by (simp add: is_locked_def)
  have "snd (login e now1 later1 users c1) = Inl InvalidCredentials"
    using unknown by (simp add: login_def)
  with login_wrong_password_account(1)[OF found unl wrong, of later2] show ?thesis
    by simp
qed

theorem login_unknown_email_like_wrong_password_witness:
  "snd (login sample_env 0 1 [alice, bob] (wrong_pw ''nobody@x.com'')) = Inl InvalidCredentials \<and>
   snd (login sample_env 0 1 [alice, bob] (wrong_pw ''a@x.com'')) = Inl InvalidCredentials"
proof -
  have unknown: "User_findOne (\<lambda>r. email r = cred_email (wrong_pw ''nobody@x.com'')) [alice, bob] = None"
    by (simp add: User_findOne_def alice_def bob_def wrong_pw_def)
  have found: "User_findOne (\<lambda>r. email r = cred_email (wrong_pw ''a@x.com'')) [alice, bob] = Some alice"
    by (simp add: User_findOne_def alice_def wrong_pw_def)
  have unlocked: "\<not> is_locked alice 0"
    by (simp add: is_locked_def active_lock_def alice_def)
  have wrong: "\<not> bcrypt_compare sample_env (cred_password (wrong_pw ''a@x.com'')) (password alice)"
    by (simp add: sample_env_def alice_def wrong_pw_def)
  from login_unknown_email_like_wrong_password[OF unknown found unlocked wrong, of 0 1 1]
  show ?thesis .
qed

text \<open>
  C6, as stated for every table: it fails when the existing account is locked. The lock
  check comes before the password check, so a wrong password for a locked account is
  answered with \<open>AccountLocked\<close>, while an unknown email is answered with
  \<open>InvalidCredentials\<close>.
\<close>

theorem login_locked_reveals_account:
  "email bob = cred_email (wrong_pw ''b@x.com'') \<and>
   \<not> bcrypt_compare sample_env (cred_password (wrong_pw ''b@x.com'')) (password bob) \<and>
   snd (login sample_env 0 0 [alice, bob] (wrong_pw ''nobody@x.com'')) = Inl InvalidCredentials \<and>
   snd (login sample_env 0 0 [alice, bob] (wrong_pw ''b@x.com'')) = Inl (AccountLocked 15) \<and>
   snd (login sample_env 0 0 [alice, bob] (wrong_pw ''nobody@x.com'')) \<noteq>
   snd (login sample_env 0 0 [alice, bob] (wrong_pw ''b@x.com''))"
  by (simp add: login_def User_findOne_def alice_def bob_def wrong_pw_def sample_env_def
      active_lock_def lockTimeRemaining_def)

section \<open>Properties of registration\<close>

text \<open>
  C7. register fails with \<open>Conflict\<close> and leaves the table as it was whenever some
  account has the email or the username of the input, compared as the strings they are.
  In particular, after a successful registration a second one with the same email fails
  with \<open>Conflict\<close> whatever its username, and adds no account.
\<close>

theorem register_conflict:
  "((\<exists>r \<in> set users. email r = reg_email d \<or> username r = reg_username d) \<longrightarrow>
      register e rnd users d = (users, Inl Conflict)) \<and>
   (\<forall>users' ok d' rnd'. register e rnd users d = (users', Inr ok) \<and> reg_email d' = reg_email d \<longrightarrow>
      register e rnd' users' d' = (users', Inl Conflict))"
proof (intro conjI impI allI)
  assume "\<exists>r \<in> set users. email r = reg_email d \<or> username r = reg_username d"
  then have "User_findOne (\<lambda>r. email r = reg_email d \<or> username r = reg_username d) users \<noteq> None"
    unfolding findOne_exists .
  then show "register e rnd users d = (users, Inl Conflict)"
    by (auto simp: register_def)
next
  fix users' ok rnd' and d' :: userData
  assume a: "register e rnd users d = (users', Inr ok) \<and> reg_email d' = reg_email d"
  then have "\<exists>r \<in> set users'. email r = reg_email d"
    by (auto simp: register_def User_create_def Let_def split: option.splits if_splits)
  with a have "User_findOne (\<lambda>r. email r = reg_email d' \<or> username r = reg_username d') users' \<noteq> None"
    unfolding findOne_exists by auto
  then show "register e rnd' users' d' = (users', Inl Conflict)"
    by (auto simp: register_def)
qed

theorem register_conflict_witness:
  "register sample_env ''9e41'' [alice, bob] (carol_data \<lparr> reg_username := ''bob'' \<rparr>) =
     ([alice, bob], Inl Conflict) \<and>
   register sample_env ''9e42''
       (fst (register sample_env ''9e41'' [alice, bob] carol_data))
       (carol_data \<lparr> reg_username := ''carol2'' \<rparr>) =
     (fst (register sample_env ''9e41'' [alice, bob] carol_data), Inl Conflict) \<and>
   length (fst (register sample_env ''9e41'' [alice, bob] carol_data)) = 3"
proof -
  let ?d = "carol_data \<lparr> reg_username := ''bob'' \<rparr>"
  let ?d2 = "carol_data \<lparr> reg_username := ''carol2'' \<rparr>"
  have taken: "\<exists>r \<in> set [alice, bob]. email r = reg_email ?d \<or> username r = reg_username ?d"
    by (simp add: bob_def carol_data_def)
  have first: "\<exists>users' ok. register sample_env ''9e41'' [alice, bob] carol_data = (users', Inr ok)
      \<and> length users' = 3"
    by (simp add: register_def User_findOne_def User_create_def alice_def bob_def carol_data_def
        Let_def)
  then obtain users' ok where
    reg: "register sample_env ''9e41'' [alice, bob] carol_data = (users', Inr ok)"
    and len: "length users' = 3"
    by blast
  have same: "reg_email ?d2 = reg_email carol_data"
    by simp
  have "register sample_env ''9e41'' [alice, bob] ?d = ([alice, bob], Inl Conflict)"
    using register_conflict[of "[alice, bob]" ?d sample_env "''9e41''"] taken by blast
  moreover have "register sample_env ''9e42'' users' ?d2 = (users', Inl Conflict)"
    using register_conflict[of "[alice, bob]" carol_data sample_env "''9e41''"] reg same by blast
  ultimately show ?thesis
    using reg len by simp
qed

section \<open>Properties of password reset\<close>

lemma reset_match_iff:
  "reset_match token now r =
     (resetPasswordToken r = Some token \<and> (\<exists>x. resetPasswordExpires r = Some x \<and> now < x))"
  by (auto simp: reset_match_def split: option.splits)

lemma resetPassword_found:
  assumes "User_findOne (reset_match token now) users = Some u"
  shows "resetPassword e now users token newPassword =
           (rewrite_rows (user_id u)
              (\<lambda>r. r \<lparr> password := bcrypt_hash e newPassword 12, failedLoginAttempts := Some 0,
                        lockUntil := None, resetPasswordToken := None,
                        resetPasswordExpires := None \<rparr>) users,
            Inr ''Password reset successfully'')"
  using assms
  by (simp add: resetPassword_def update_plain no_fields_def assign_def [abs_def] or_keep_def
      saltRounds_def)

text \<open>
  C4. resetPassword succeeds exactly when some account holds the input as its
  \<open>resetPasswordToken\<close> with \<open>resetPasswordExpires\<close> strictly after the clock reading;
  otherwise it fails with \<open>InvalidOrExpiredToken\<close>, whichever part of the condition
  failed, and writes nothing. On success the first such account gets the hash of the new
  password, null reset fields, \<open>failedLoginAttempts = 0\<close> and a null \<open>lockUntil\<close>; no
  other account changes.
\<close>

theorem resetPassword_outcome:
  "((\<exists>r \<in> set users. resetPasswordToken r = Some token \<and>
        (\<exists>x. resetPasswordExpires r = Some x \<and> now < x)) \<longrightarrow>
      snd (resetPassword e now users token newPassword) = Inr ''Password reset successfully'') \<and>
   (\<not> (\<exists>r \<in> set users. resetPasswordToken r = Some token \<and>
        (\<exists>x. resetPasswordExpires r = Some x \<and> now < x)) \<longrightarrow>
      resetPassword e now users token newPassword = (users, Inl InvalidOrExpiredToken)) \<and>
   (\<forall>u. distinct (map user_id users) \<and>
        User_findOne (\<lambda>r. resetPasswordToken r = Some token \<and>
                          (\<exists>x. resetPasswordExpires r = Some x \<and> now < x)) users = Some u \<longrightarrow>
      User_findByPk (user_id u) (fst (resetPassword e now users token newPassword)) =
        Some (u \<lparr> password := bcrypt_hash e newPassword 12, failedLoginAttempts := Some 0,
                   lockUntil := None, resetPasswordToken := None,
                   resetPasswordExpires := None \<rparr>) \<and>
      (\<forall>j. j \<noteq> user_id u \<longrightarrow>
         User_findByPk j (fst (resetPassword e now users token newPassword)) =
         User_findByPk j users))"
proof -
  let ?wh = "\<lambda>r. resetPasswordToken r = Some token \<and>
                 (\<exists>x. resetPasswordExpires r = Some x \<and> now < x)"
  have wh: "reset_match token now = ?wh"
    by (rule ext) (rule reset_match_iff)
  have yes: "snd (resetPassword e now users token newPassword) = Inr ''Password reset successfully''"
    if "\<exists>r \<in> set users. ?wh r"
  proof -
    from that have "User_findOne ?wh users \<noteq> None"
      unfolding findOne_exists .
    then obtain u where "User_findOne (reset_match token now) users = Some u"
      unfolding wh by blast
    from resetPassword_found[OF this] show ?thesis
      by simp
  qed
  have no: "resetPassword e now users token newPassword = (users, Inl InvalidOrExpiredToken)"
    if "\<not> (\<exists>r \<in> set users. ?wh r)"
  proof -
    from that have "\<not> (User_findOne ?wh users \<noteq> None)"
      unfolding findOne_exists .
    then have "User_findOne (reset_match token now) users = None"
      unfolding wh by simp
    then show ?thesis
      by (simp add: resetPassword_def)
  qed
  have stored: "User_findByPk (user_id u) (fst (resetPassword e now users token newPassword)) =
        Some (u \<lparr> password := bcrypt_hash e newPassword 12, failedLoginAttempts := Some 0,
                   lockUntil := None, resetPasswordToken := None,
                   resetPasswordExpires := None \<rparr>) \<and>
      (\<forall>j. j \<noteq> user_id u \<longrightarrow>
         User_findByPk j (fst (resetPassword e now users token newPassword)) =
         User_findByPk j users)"
    if d: "distinct (map user_id users)" and f: "User_findOne ?wh users = Some u" for u
  proof -
    from f have f': "User_findOne (reset_match token now) users = Some u"
      unfolding wh .
    have "u \<in> set users"
      using findOne_member[OF f] by simp
    then have "User_findByPk (user_id u) users = Some u"
      using d by (rule findByPk_distinct[rotated])
    then show ?thesis
      by (simp add: resetPassword_found[OF f'] findByPk_rewrite_rows)
  qed
  from yes no stored show ?thesis
    by blast
qed

theorem resetPassword_outcome_witness:
  "snd (resetPassword sample_env 3599999 [alice, bob] ''77aa'' ''n3wpass'') =
     Inr ''Password reset successfully'' \<and>
   User_findByPk 2 (fst (resetPassword sample_env 3599999 [alice, bob] ''77aa'' ''n3wpass'')) =
     Some (bob \<lparr> password := ''#n3wpass'', failedLoginAttempts := Some 0,
                 lockUntil := None, resetPasswordToken := None,
                 resetPasswordExpires := None \<rparr>) \<and>
   User_findByPk 1 (fst (resetPassword sample_env 3599999 [alice, bob] ''77aa'' ''n3wpass'')) =
     Some alice \<and>
   resetPassword sample_env 3600000 [alice, bob] ''77aa'' ''n3wpass'' =
     ([alice, bob], Inl InvalidOrExpiredToken) \<and>
   resetPassword sample_env 0 [alice, bob] ''0000'' ''n3wpass'' =
     ([alice, bob], Inl InvalidOrExpiredToken)"
proof -
  have ex: "\<exists>r \<in> set [alice, bob]. resetPasswordToken r = Some ''77aa'' \<and>
        (\<exists>x. resetPasswordExpires r = Some x \<and> 3599999 < x)"
    by (simp add: bob_def)
  have expired: "\<not> (\<exists>r \<in> set [alice, bob]. resetPasswordToken r = Some ''77aa'' \<and>
        (\<exists>x. resetPasswordExpires r = Some x \<and> 3600000 < x))"
    by (simp add: alice_def bob_def)
  have unknown: "\<not> (\<exists>r \<in> set [alice, bob]. resetPasswordToken r = Some ''0000'' \<and>
        (\<exists>x. resetPasswordExpires r = Some x \<and> 0 < x))"
    by (simp add: alice_def bob_def)
  have pk: "distinct (map user_id [alice, bob])"
    by (simp add: alice_def bob_def)
  have first: "User_findOne (\<lambda>r. resetPasswordToken r = Some ''77aa'' \<and>
        (\<exists>x. resetPasswordExpires r = Some x \<and> 3599999 < x)) [alice, bob] = Some bob"
    by (simp add: User_findOne_def alice_def bob_def)
  have ids: "user_id bob = 2" "User_findByPk 1 [alice, bob] = Some alice"
    by (simp_all add: User_findByPk_def alice_def bob_def)
  note at_ok = resetPassword_outcome[of "[alice, bob]" "''77aa''" 3599999 sample_env "''n3wpass''"]
  note at_late = resetPassword_outcome[of "[alice, bob]" "''77aa''" 3600000 sample_env "''n3wpass''"]
  note at_bad = resetPassword_outcome[of "[alice, bob]" "''0000''" 0 sample_env "''n3wpass''"]
  have "snd (resetPassword sample_env 3599999 [alice, bob] ''77aa'' ''n3wpass'') =
     Inr ''Password reset successfully''"
    using at_ok ex by blast
  moreover have "User_findByPk (user_id bob) (fst (resetPassword sample_env 3599999 [alice, bob] ''77aa'' ''n3wpass'')) =
     Some (bob \<lparr> password := bcrypt_hash sample_env ''n3wpass'' 12, failedLoginAttempts := Some 0,
                 lockUntil := None, resetPasswordToken := None,
                 resetPasswordExpires := None \<rparr>) \<and>
      (\<forall>j. j \<noteq> user_id bob \<longrightarrow>
         User_findByPk j (fst (resetPassword sample_env 3599999 [alice, bob] ''77aa'' ''n3wpass'')) =
         User_findByPk j [alice, bob])"
    using at_ok pk first by blast
  moreover have "resetPassword sample_env 3600000 [alice, bob] ''77aa'' ''n3wpass'' =
     ([alice, bob], Inl InvalidOrExpiredToken)"
    using at_late expired by blast
  moreover have "resetPassword sample_env 0 [alice, bob] ''0000'' ''n3wpass'' =
     ([alice, bob], Inl InvalidOrExpiredToken)"
    using at_bad unknown by blast
  ultimately show ?thesis
    using ids by (simp add: sample_env_def)
qed

lemma requestPasswordReset_found:
  assumes "User_findOne (\<lambda>r. email r = em) users = Some u"
  shows "requestPasswordReset rnd now users em =
           (rewrite_rows (user_id u)
              (\<lambda>r. r \<lparr> resetPasswordToken := Some rnd,
                        resetPasswordExpires := Some (now + 3600000) \<rparr>) users,
            Inr \<lparr> reset_message =
                    ''If an account with this email exists, a password reset link has been sent'',
                  reset_resetToken = Some rnd \<rparr>)"
  using assms
  by (simp add: requestPasswordReset_def update_plain no_fields_def assign_def [abs_def]
      or_keep_def Let_def)

text \<open>
  C8. requestPasswordReset succeeds with the same message for every email, whether or not
  an account has it. Without an account nothing is written; with one, the account is
  stored with the newly drawn token and \<open>resetPasswordExpires\<close> one hour after the clock
  reading, whatever reset token it held before, so the only token value that can match
  the account afterwards is the new one.
\<close>

theorem requestPasswordReset_generic:
  "(\<exists>res. snd (requestPasswordReset rnd now users em) = Inr res \<and>
      reset_message res =
        ''If an account with this email exists, a password reset link has been sent'') \<and>
   (User_findOne (\<lambda>r. email r = em) users = None \<longrightarrow>
      fst (requestPasswordReset rnd now users em) = users) \<and>
   (\<forall>u. User_findOne (\<lambda>r. email r = em) users = Some u \<longrightarrow>
      (\<exists>u'. User_findOne (\<lambda>r. email r = em) (fst (requestPasswordReset rnd now users em)) = Some u' \<and>
         u' = u \<lparr> resetPasswordToken := Some rnd,
                    resetPasswordExpires := Some (now + 60 * 60 * 1000) \<rparr> \<and>
         (\<forall>token t. reset_match token t u' \<longrightarrow> token = rnd)))"
proof (cases "User_findOne (\<lambda>r. email r = em) users")
  case None
  then show ?thesis
    by (simp add: requestPasswordReset_def)
next
  case (Some u)
  have "User_findOne (\<lambda>r. email r = em)
          (rewrite_rows (user_id u)
             (\<lambda>r. r \<lparr> resetPasswordToken := Some rnd,
                       resetPasswordExpires := Some (now + 3600000) \<rparr>) users) =
        Some (u \<lparr> resetPasswordToken := Some rnd, resetPasswordExpires := Some (now + 3600000) \<rparr>)"
    by (rule findOne_rewrite_rows[OF Some]) simp
  then show ?thesis
    using Some by (simp add: requestPasswordReset_found[OF Some] reset_match_def)
qed

theorem requestPasswordReset_generic_witness:
  "reset_message (projr (snd (requestPasswordReset ''c0de'' 1000 [alice, bob] ''nobody@x.com''))) =
     reset_message (projr (snd (requestPasswordReset ''c0de'' 1000 [alice, bob] ''b@x.com''))) \<and>
   fst (requestPasswordReset ''c0de'' 1000 [alice, bob] ''nobody@x.com'') = [alice, bob] \<and>
   User_findOne (\<lambda>r. email r = ''b@x.com'')
       (fst (requestPasswordReset ''c0de'' 1000 [alice, bob] ''b@x.com'')) =
     Some (bob \<lparr> resetPasswordToken := Some ''c0de'', resetPasswordExpires := Some 3601000 \<rparr>)"
proof -
  have none: "User_findOne (\<lambda>r. email r = ''nobody@x.com'') [alice, bob] = None"
    by (simp add: User_findOne_def alice_def bob_def)
  have some: "User_findOne (\<lambda>r. email r = ''b@x.com'') [alice, bob] = Some bob"
    by (simp add: User_findOne_def alice_def bob_def)
  note absent = requestPasswordReset_generic[of "''c0de''" 1000 "[alice, bob]" "''nobody@x.com''"]
  note present = requestPasswordReset_generic[of "''c0de''" 1000 "[alice, bob]" "''b@x.com''"]
  have "reset_message (projr (snd (requestPasswordReset ''c0de'' 1000 [alice, bob] ''nobody@x.com''))) =
     ''If an account with this email exists, a password reset link has been sent''"
    using absent by auto
  moreover have "reset_message (projr (snd (requestPasswordReset ''c0de'' 1000 [alice, bob] ''b@x.com''))) =
     ''If an account with this email exists, a password reset link has been sent''"
    using present by auto
  moreover have "fst (requestPasswordReset ''c0de'' 1000 [alice, bob] ''nobody@x.com'') = [alice, bob]"
    using absent none by blast
  moreover have "User_findOne (\<lambda>r. email r = ''b@x.com'')
       (fst (requestPasswordReset ''c0de'' 1000 [alice, bob] ''b@x.com'')) =
     Some (bob \<lparr> resetPasswordToken := Some ''c0de'', resetPasswordExpires := Some (1000 + 60 * 60 * 1000) \<rparr>)"
    using present some by auto
  ultimately show ?thesis
    by simp
qed

section \<open>Properties of email verification\<close>

lemma verifyEmail_unverified:
  assumes "User_findOne (\<lambda>r. verificationToken r = Some t) users = Some u"
    and "\<not> isVerified u"
  shows "verifyEmail users t =
           (rewrite_rows (user_id u) (\<lambda>r. r \<lparr> isVerified := True, verificationToken := None \<rparr>) users,
            Inr ''Email verified successfully'')"
  using assms
  by (simp add: verifyEmail_def update_plain no_fields_def assign_def [abs_def] or_keep_def)

text \<open>
  C5, amended. A token is looked up by exact match. When the account found is already verified,
  verifyEmail succeeds and writes nothing. Otherwise it succeeds, and the account is
  stored with \<open>isVerified = true\<close> and a null \<open>verificationToken\<close> (read back by its
  primary key); a second call with the same token then fails with \<open>InvalidToken\<close>,
  given that no other account holds that token.
\<close>

theorem verifyEmail_single_use:
  assumes found: "User_findOne (\<lambda>r. verificationToken r = Some t) users = Some u"
  shows "(isVerified u \<longrightarrow> verifyEmail users t = (users, Inr ''Email already verified'')) \<and>
         (\<not> isVerified u \<longrightarrow>
            snd (verifyEmail users t) = Inr ''Email verified successfully'') \<and>
         (\<not> isVerified u \<and> distinct (map user_id users) \<longrightarrow>
            User_findByPk (user_id u) (fst (verifyEmail users t)) =
              Some (u \<lparr> isVerified := True, verificationToken := None \<rparr>)) \<and>
         (\<not> isVerified u \<and>
          (\<forall>r \<in> set users. verificationToken r = Some t \<longrightarrow> user_id r = user_id u) \<longrightarrow>
            verifyEmail (fst (verifyEmail users t)) t =
              (fst (verifyEmail users t), Inl InvalidToken))"
proof -
  let ?f = "\<lambda>r. r \<lparr> isVerified := True, verificationToken := None \<rparr>"
  let ?users' = "rewrite_rows (user_id u) ?f users"
  have already: "verifyEmail users t = (users, Inr ''Email already verified'')" if "isVerified u"
    using found that by (simp add: verifyEmail_def)
  have stored: "User_findByPk (user_id u) ?users' = Some (?f u)" if "distinct (map user_id users)"
  proof -
    have "u \<in> set users"
      using findOne_member[OF found] by simp
    then have "User_findByPk (user_id u) users = Some u"
      using that by (rule findByPk_distinct[rotated])
    then show ?thesis
      by (simp add: findByPk_rewrite_rows)
  qed
  have again: "verifyEmail ?users' t = (?users', Inl InvalidToken)"
    if "\<forall>r \<in> set users. verificationToken r = Some t \<longrightarrow> user_id r = user_id u"
  proof -
    have "\<not> (\<exists>r \<in> set ?users'. verificationToken r = Some t)"
      using that by (auto simp: rewrite_rows_def)
    then have "\<not> (User_findOne (\<lambda>r. verificationToken r = Some t) ?users' \<noteq> None)"
      unfolding findOne_exists .
    then show ?thesis
      by (simp add: verifyEmail_def)
  qed
  show ?thesis
    using already stored again by (auto simp: verifyEmail_unverified[OF found])
qed

theorem verifyEmail_single_use_witness:
  "verifyEmail [alice, bob] ''5f2c'' =
     ([alice \<lparr> isVerified := True, verificationToken := None \<rparr>, bob],
      Inr ''Email verified successfully'') \<and>
   verifyEmail [alice \<lparr> isVerified := True, verificationToken := None \<rparr>, bob] ''5f2c'' =
     ([alice \<lparr> isVerified := True, verificationToken := None \<rparr>, bob], Inl InvalidToken) \<and>
   verifyEmail [alice \<lparr> isVerified := True \<rparr>, bob] ''5f2c'' =
     ([alice \<lparr> isVerified := True \<rparr>, bob], Inr ''Email already verified'')"
proof -
  let ?a = "alice \<lparr> isVerified := True \<rparr>"
  have found: "User_findOne (\<lambda>r. verificationToken r = Some ''5f2c'') [alice, bob] = Some alice"
    by (simp add: User_findOne_def alice_def)
  have fresh: "\<not> isVerified alice"
    by (simp add: alice_def)
  have only: "\<forall>r \<in> set [alice, bob]. verificationToken r = Some ''5f2c'' \<longrightarrow> user_id r = user_id alice"
    by (simp add: bob_def)
  have found': "User_findOne (\<lambda>r. verificationToken r = Some ''5f2c'') [?a, bob] = Some ?a"
    by (simp add: User_findOne_def alice_def)
  have verified: "isVerified ?a"
    by simp
  have first: "verifyEmail [alice, bob] ''5f2c'' =
     ([alice \<lparr> isVerified := True, verificationToken := None \<rparr>, bob],
      Inr ''Email verified successfully'')"
    unfolding verifyEmail_unverified[OF found fresh]
    by (simp add: rewrite_rows_def alice_def bob_def)
  from verifyEmail_single_use[OF found] fresh only
  have "verifyEmail (fst (verifyEmail [alice, bob] ''5f2c'')) ''5f2c'' =
          (fst (verifyEmail [alice, bob] ''5f2c''), Inl InvalidToken)"
    by blast
  moreover from verifyEmail_single_use[OF found'] verified
  have "verifyEmail [?a, bob] ''5f2c'' = ([?a, bob], Inr ''Email already verified'')"
    by blast
  ultimately show ?thesis
    using first by simp
qed

text \<open>
  C5, as stated for every table: it fails when a second account holds the same token,
  which no constraint of the table excludes and which updateProfile can produce. The
  first call verifies the first account, and the second call with the same token
  succeeds again, on the other account.
\<close>

theorem verifyEmail_shared_token_reused:
  "fst (updateProfile [alice, bob] 2
          (no_fields \<lparr> set_isVerified := Some False,
                       set_verificationToken := Some (Some ''5f2c'') \<rparr>)) =
     [alice, bob \<lparr> isVerified := False, verificationToken := Some ''5f2c'' \<rparr>] \<and>
   verifyEmail [alice, bob \<lparr> isVerified := False, verificationToken := Some ''5f2c'' \<rparr>] ''5f2c'' =
     ([alice \<lparr> isVerified := True, verificationToken := None \<rparr>,
       bob \<lparr> isVerified := False, verificationToken := Some ''5f2c'' \<rparr>],
      Inr ''Email verified successfully'') \<and>
   verifyEmail [alice \<lparr> isVerified := True, verificationToken := None \<rparr>,
                bob \<lparr> isVerified := False, verificationToken := Some ''5f2c'' \<rparr>] ''5f2c'' =
     ([alice \<lparr> isVerified := True, verificationToken := None \<rparr>,
       bob \<lparr> isVerified := True, verificationToken := None \<rparr>],
      Inr ''Email verified successfully'') \<and>
   snd (verifyEmail [alice \<lparr> isVerified := True, verificationToken := None \<rparr>,
                     bob \<lparr> isVerified := False, verificationToken := Some ''5f2c'' \<rparr>] ''5f2c'') \<noteq>
     Inl InvalidToken"
  by (simp add: updateProfile_def verifyEmail_def User_findByPk_def User_findOne_def
      instance_update_def breaks_unique_def truthy_def no_fields_def rewrite_rows_def
      assign_def or_keep_def alice_def bob_def)

section \<open>Properties of profile update\<close>








end
